theory Spec2Isabelle
  imports Complex_Main "HOL-Library.AList"
begin

section \<open>Text and words (ingestion/chunker.py, ingestion/extractor.py)\<close>

text \<open>
  A Python \<open>str\<close> holding document text is a list of Unicode code points.
  \<open>isspace\<close> is the set of code points that \<open>str.split()\<close>, \<open>str.strip()\<close> and the
  regular expression class \<open>\s\<close> (on \<open>str\<close> patterns) all treat as whitespace.
\<close>

type_synonym ustr = "nat list"

definition isspace :: "nat \<Rightarrow> bool" where
  "isspace c \<longleftrightarrow>
     (9 \<le> c \<and> c \<le> 13) \<or> (28 \<le> c \<and> c \<le> 32) \<or> c = 133 \<or> c = 160 \<or> c = 5760 \<or>
     (8192 \<le> c \<and> c \<le> 8202) \<or> c = 8232 \<or> c = 8233 \<or> c = 8239 \<or> c = 8287 \<or> c = 12288"

text \<open>
  \<open>str.split()\<close> with no separator: a scan that closes the current word at every
  whitespace character and emits no empty word.
\<close>

fun split_scan :: "ustr \<Rightarrow> ustr \<Rightarrow> ustr list" where
  "split_scan cur [] = (if cur = [] then [] else [cur])"
| "split_scan cur (c # cs) =
     (if isspace c then (if cur = [] then split_scan [] cs else cur # split_scan [] cs)
      else split_scan (cur @ [c]) cs)"

definition str_split :: "ustr \<Rightarrow> ustr list" where
  "str_split t = split_scan [] t"

text \<open>\<open>split_words\<close>: an absent (\<open>None\<close>) or empty text gives no words.\<close>

definition split_words :: "ustr option \<Rightarrow> ustr list" where
  "split_words t = (case t of None \<Rightarrow> [] | Some s \<Rightarrow> (if s = [] then [] else str_split s))"

text \<open>\<open>" ".join(ws)\<close>.\<close>

fun join_space :: "ustr list \<Rightarrow> ustr" where
  "join_space [] = []"
| "join_space [w] = w"
| "join_space (w # v # ws) = w @ 32 # join_space (v # ws)"

text \<open>
  A Python slice \<open>xs[i:j]\<close> with integer bounds: a negative bound counts from the end,
  and both bounds are clamped to the list.
\<close>

definition slice_bound :: "nat \<Rightarrow> int \<Rightarrow> nat" where
  "slice_bound n i = (if i < 0 then nat (int n + i) else min n (nat i))"

definition py_slice :: "'a list \<Rightarrow> int \<Rightarrow> int \<Rightarrow> 'a list" where
  "py_slice xs i j =
     (let lo = slice_bound (length xs) i; hi = slice_bound (length xs) j
      in take (hi - lo) (drop lo xs))"

subsection \<open>Page ranges and chunks\<close>

record page_range =
  range_page :: "int option"
  range_start :: int
  range_end :: int

record chunk =
  doc_id :: string
  chunk_index :: int
  chunk_text_str :: ustr
  start_offset :: int
  end_offset :: int
  source :: "string option"
  page :: "int option"

fun scan_ranges :: "page_range list \<Rightarrow> int \<Rightarrow> int option option" where
  "scan_ranges [] off = None"
| "scan_ranges (r # rs) off =
     (if range_start r \<le> off \<and> off < range_end r then Some (range_page r)
      else scan_ranges rs off)"

definition find_page :: "page_range list option \<Rightarrow> int \<Rightarrow> int option" where
  "find_page page_ranges off =
     (case page_ranges of
        None \<Rightarrow> None
      | Some rs \<Rightarrow>
          (if rs = [] then None
           else (case scan_ranges rs off of
                   Some p \<Rightarrow> p
                 | None \<Rightarrow> range_page (last rs))))"

text \<open>
  The \<open>while start < total\<close> loop of \<open>chunk_text\<close>. The step is
  \<open>max (chunk_size - overlap) 1\<close>, so \<open>total - start\<close> decreases on every round.
\<close>

function chunk_loop ::
  "ustr list \<Rightarrow> string \<Rightarrow> int \<Rightarrow> int \<Rightarrow> string option \<Rightarrow> page_range list option \<Rightarrow>
   int \<Rightarrow> int \<Rightarrow> chunk list \<Rightarrow> chunk list" where
  "chunk_loop words d chunk_size overlap src page_ranges start index chunks =
     (if start < int (length words) then
        (let end_off = min (start + chunk_size) (int (length words));
             chunk_words = py_slice words start end_off
         in if chunk_words = [] then chunks
            else chunk_loop words d chunk_size overlap src page_ranges
                   (start + max (chunk_size - overlap) 1) (index + 1)
                   (chunks @ [\<lparr>doc_id = d, chunk_index = index, chunk_text_str = join_space chunk_words,
                               start_offset = start, end_offset = end_off, source = src,
                               page = find_page page_ranges start\<rparr>]))
      else chunks)"
  by pat_completeness auto
termination
  by (relation "measure (\<lambda>(words, d, chunk_size, overlap, src, page_ranges, start, index, chunks).
                  nat (int (length words) - start))") auto

declare chunk_loop.simps [simp del]

definition chunk_text ::
  "ustr option \<Rightarrow> string \<Rightarrow> int \<Rightarrow> int \<Rightarrow> string option \<Rightarrow> page_range list option \<Rightarrow> chunk list"
  where
  "chunk_text t d chunk_size overlap src page_ranges =
     (let words = split_words t
      in if words = [] then [] else chunk_loop words d chunk_size overlap src page_ranges 0 0 [])"

text \<open>A word as \<open>str.split()\<close> returns it: not empty, and free of whitespace.\<close>

definition good_word :: "ustr \<Rightarrow> bool" where
  "good_word w \<longleftrightarrow> w \<noteq> [] \<and> list_all (\<lambda>c. \<not> isspace c) w"

subsection \<open>Whitespace normalisation (extractor.py)\<close>

text \<open>
  \<open>clean_text\<close>: \<open>text.replace("\r", " ")\<close>, then \<open>re.sub(r"\s+", " ", text)\<close>, which
  replaces every maximal run of whitespace by one space, then \<open>strip()\<close>. An absent
  (\<open>None\<close>) or empty text gives the empty string.
\<close>

definition replace_cr :: "ustr \<Rightarrow> ustr" where
  "replace_cr t = map (\<lambda>c. if c = 13 then 32 else c) t"

function sub_ws :: "ustr \<Rightarrow> ustr" where
  "sub_ws [] = []"
| "sub_ws (c # cs) = (if isspace c then 32 # sub_ws (dropWhile isspace cs) else c # sub_ws cs)"
  by pat_completeness auto
termination
  by (relation "measure length") (auto simp: le_imp_less_Suc length_dropWhile_le)

definition str_strip :: "ustr \<Rightarrow> ustr" where
  "str_strip t = rev (dropWhile isspace (rev (dropWhile isspace t)))"

definition clean_text :: "ustr option \<Rightarrow> ustr" where
  "clean_text t =
     (case t of
        None \<Rightarrow> []
      | Some s \<Rightarrow> (if s = [] then [] else str_strip (sub_ws (replace_cr s))))"

text \<open>Every whitespace character is a space, and no two of them are adjacent.\<close>

fun single_spaced :: "ustr \<Rightarrow> bool" where
  "single_spaced [] = True"
| "single_spaced [c] = (isspace c \<longrightarrow> c = 32)"
| "single_spaced (c # d # cs) = ((isspace c \<longrightarrow> c = 32 \<and> \<not> isspace d) \<and> single_spaced (d # cs))"

section \<open>Paths and file types (extractor.py)\<close>

text \<open>
  File names, paths and identifiers are \<open>string\<close>s: lists of 8-bit characters, read as
  the code points U+0000 to U+00FF. Exceptions are values of \<open>py_error\<close>.
\<close>

datatype py_error =
    ValueError string
  | InvalidLiteral string
  | IndexError
  | AssertionError
  | FileNotFoundError
  | NotADirectoryError
  | UnpicklingError
  | RuntimeError

text \<open>\<open>s.split(sep)\<close> for a one-character separator: the pieces between the separators.\<close>

fun split_on :: "char \<Rightarrow> string \<Rightarrow> string list" where
  "split_on sep [] = [[]]"
| "split_on sep (x # xs) =
     (if x = sep then [] # split_on sep xs
      else (case split_on sep xs of
              [] \<Rightarrow> [[x]]
            | p # ps \<Rightarrow> (x # p) # ps))"

text \<open>
  \<open>Path(p).name\<close> on a POSIX path: the last component, where empty components and
  \<open>.\<close> components do not count; the empty string when there is none.
\<close>

definition path_name :: "string \<Rightarrow> string" where
  "path_name p =
     (case rev (filter (\<lambda>c. c \<noteq> [] \<and> c \<noteq> ''.'') (split_on CHR ''/'' p)) of
        [] \<Rightarrow> []
      | n # _ \<Rightarrow> n)"

text \<open>\<open>name.rfind('.')\<close>: the position of the last dot, \<open>None\<close> for Python's \<open>-1\<close>.\<close>

definition rfind_dot :: "string \<Rightarrow> nat option" where
  "rfind_dot name =
     (if CHR ''.'' \<in> set name
      then Some (length name - 1 - length (takeWhile (\<lambda>c. c \<noteq> CHR ''.'') (rev name)))
      else None)"

text \<open>
  \<open>suffix\<close> and \<open>stem\<close> of a file name: the name is cut at its last dot when
  \<open>0 < i < len(name) - 1\<close>, and has no suffix otherwise.
\<close>

definition name_suffix :: "string \<Rightarrow> string" where
  "name_suffix name =
     (case rfind_dot name of
        None \<Rightarrow> []
      | Some i \<Rightarrow> (if 0 < i \<and> int i < int (length name) - 1 then drop i name else []))"

definition name_stem :: "string \<Rightarrow> string" where
  "name_stem name =
     (case rfind_dot name of
        None \<Rightarrow> name
      | Some i \<Rightarrow> (if 0 < i \<and> int i < int (length name) - 1 then take i name else name))"

definition path_suffix :: "string \<Rightarrow> string" where
  "path_suffix p = name_suffix (path_name p)"

text \<open>\<open>str.lower()\<close> on the code points below 256: A to Z, and U+00C0 to U+00DE but U+00D7.\<close>

definition lower_char :: "char \<Rightarrow> char" where
  "lower_char c =
     (let n = (of_char c :: nat)
      in if (65 \<le> n \<and> n \<le> 90) \<or> (192 \<le> n \<and> n \<le> 222 \<and> n \<noteq> 215) then char_of (n + 32) else c)"

definition str_lower :: "string \<Rightarrow> string" where
  "str_lower s = map lower_char s"

definition detect_file_type :: "string \<Rightarrow> py_error + string" where
  "detect_file_type file_path =
     (let suffix = str_lower (path_suffix file_path)
      in if suffix = ''.pdf'' then Inr ''pdf''
         else if suffix = ''.docx'' then Inr ''docx''
         else if suffix = ''.txt'' then Inr ''txt''
         else if suffix \<in> {''.png'', ''.jpg'', ''.jpeg'', ''.tif'', ''.tiff'', ''.bmp'', ''.webp''}
         then Inr ''image''
         else Inl (ValueError (''Unsupported file type: '' @ suffix)))"

section \<open>Loading chunk files (embed_and_index.py)\<close>

text \<open>
  A value as \<open>json.load\<close> returns it. A dict is an association list in insertion
  order. A float is carried as the real number it denotes.
\<close>

datatype pyval =
    PyNone
  | PyBool bool
  | PyInt int
  | PyFloat real
  | PyStr string
  | PyList "pyval list"
  | PyDict "(string \<times> pyval) list"

text \<open>\<open>str(n)\<close> for an integer: its decimal digits, with a minus sign when negative.\<close>

function digits :: "nat \<Rightarrow> string" where
  "digits n = (if n < 10 then [char_of (48 + n)] else digits (n div 10) @ [char_of (48 + n mod 10)])"
  by pat_completeness auto
termination
  by (relation "measure id") auto

declare digits.simps [simp del]

definition str_int :: "int \<Rightarrow> string" where
  "str_int i = (if i < 0 then CHR ''-'' # digits (nat (- i)) else digits (nat i))"

text \<open>
  What an f-string writes for a value: \<open>str\<close> of it. The text Python gives for floats
  and containers is the parameter \<open>repr\<close>.
\<close>

fun py_format :: "(pyval \<Rightarrow> string) \<Rightarrow> pyval \<Rightarrow> string" where
  "py_format repr (PyInt n) = str_int n"
| "py_format repr (PyStr s) = s"
| "py_format repr PyNone = ''None''"
| "py_format repr (PyBool b) = (if b then ''True'' else ''False'')"
| "py_format repr v = repr v"

text \<open>
  The chunk store on disk. An entry of a document folder is given as what
  \<open>open\<close> followed by \<open>json.load\<close> makes of it: a parsed value, or a failure
  (a directory, an unreadable file, malformed JSON). Entries come in the order in which
  the file system enumerates them.
\<close>

datatype chunk_file = Unreadable | Parsed pyval

datatype fs_entry = RegularFile | Directory "(string \<times> chunk_file) list"

datatype chunks_dir = Absent | NotDirectory | ChunksDir "(string \<times> fs_entry) list"

text \<open>The pattern \<open>chunk_*.json\<close>.\<close>

definition glob_chunk :: "string \<Rightarrow> bool" where
  "glob_chunk name \<longleftrightarrow>
     11 \<le> length name \<and> take 6 name = ''chunk_'' \<and> drop (length name - 5) name = ''.json''"

text \<open>
  \<open>int(s)\<close> in base 10. Around the literal, \<open>int\<close> drops the ASCII whitespace
  (code points 9 to 13, and 32) and the whitespace beyond ASCII; the separators
  U+001C to U+001F are not dropped. One sign may lead, and the digits may be grouped
  by single underscores. \<open>None\<close> stands for the \<open>ValueError\<close> that \<open>int\<close> raises.
\<close>

definition int_space :: "char \<Rightarrow> bool" where
  "int_space c \<longleftrightarrow>
     (9 \<le> (of_char c :: nat) \<and> (of_char c :: nat) \<le> 13) \<or> (of_char c :: nat) = 32 \<or>
     (128 \<le> (of_char c :: nat) \<and> isspace (of_char c))"

definition is_digit :: "char \<Rightarrow> bool" where
  "is_digit c \<longleftrightarrow> 48 \<le> (of_char c :: nat) \<and> (of_char c :: nat) \<le> 57"

definition digits_value :: "string \<Rightarrow> nat" where
  "digits_value s = foldl (\<lambda>a c. 10 * a + (of_char c - 48)) 0 s"

definition strip_chars :: "string \<Rightarrow> string" where
  "strip_chars s = rev (dropWhile int_space (rev (dropWhile int_space s)))"

definition sign_and_body :: "string \<Rightarrow> bool \<times> string" where
  "sign_and_body t =
     (case t of
        [] \<Rightarrow> (False, [])
      | c # r \<Rightarrow>
          (if c = CHR ''-'' then (True, r) else if c = CHR ''+'' then (False, r) else (False, t)))"

definition unsigned_literal :: "string \<Rightarrow> nat option" where
  "unsigned_literal body =
     (if list_all (\<lambda>g. g \<noteq> [] \<and> list_all is_digit g) (split_on CHR ''_'' body)
      then Some (digits_value (concat (split_on CHR ''_'' body)))
      else None)"

definition py_int :: "string \<Rightarrow> int option" where
  "py_int s =
     (case sign_and_body (strip_chars s) of
        (neg, body) \<Rightarrow>
          (case unsigned_literal body of
             None \<Rightarrow> None
           | Some n \<Rightarrow> Some (if neg then - int n else int n)))"

text \<open>The sort key \<open>int(x.stem.split("_")[1])\<close> of a file name.\<close>

definition chunk_number :: "string \<Rightarrow> py_error + int" where
  "chunk_number name =
     (case split_on CHR ''_'' (name_stem name) of
        _ # seg # _ \<Rightarrow> (case py_int seg of None \<Rightarrow> Inl (InvalidLiteral seg) | Some n \<Rightarrow> Inr n)
      | _ \<Rightarrow> Inl IndexError)"

text \<open>
  \<open>sorted(..., key=...)\<close>: the keys of all elements are computed first, in order, and
  the first key that raises ends the call; then the elements are sorted by key, stably.
  The elements are the names that \<open>glob("chunk_*.json")\<close> finds in the folder.
\<close>

fun all_keys :: "string list \<Rightarrow> py_error + int list" where
  "all_keys [] = Inr []"
| "all_keys (n # ns) =
     (case chunk_number n of
        Inl e \<Rightarrow> Inl e
      | Inr k \<Rightarrow> (case all_keys ns of Inl e \<Rightarrow> Inl e | Inr ks \<Rightarrow> Inr (k # ks)))"

definition sorted_chunk_files :: "(string \<times> chunk_file) list \<Rightarrow> py_error + string list" where
  "sorted_chunk_files files =
     (let chunk_files = filter glob_chunk (map fst files)
      in case all_keys chunk_files of
           Inl e \<Rightarrow> Inl e
         | Inr ks \<Rightarrow> Inr (map snd (sort_key fst (zip ks chunk_files))))"

text \<open>
  \<open>open(chunk_file, "r")\<close> followed by \<open>json.load\<close>: the file \<open>name\<close> of the folder \<open>d\<close>
  is looked up in the store and read. The store comes back with the result, as every
  operation on it does.
\<close>

definition open_json :: "chunks_dir \<Rightarrow> string \<Rightarrow> string \<Rightarrow> chunks_dir \<times> chunk_file" where
  "open_json store d name =
     (store,
      case store of
        ChunksDir folders \<Rightarrow>
          (case map_of folders d of
             Some (Directory files) \<Rightarrow>
               (case map_of files name of Some f \<Rightarrow> f | None \<Rightarrow> Unreadable)
           | _ \<Rightarrow> Unreadable)
      | _ \<Rightarrow> Unreadable)"

text \<open>
  The body of the \<open>try\<close>: the file must parse to a dict that has a \<open>chunk_index\<close>;
  the dict then gets its \<open>chunk_id\<close>. Every failure is caught, and the file is skipped.
\<close>

definition load_chunk_file :: "(pyval \<Rightarrow> string) \<Rightarrow> string \<Rightarrow> chunk_file \<Rightarrow> pyval option" where
  "load_chunk_file repr d f =
     (case f of
        Parsed (PyDict chunk_data) \<Rightarrow>
          (case map_of chunk_data ''chunk_index'' of
             Some ci \<Rightarrow>
               Some (PyDict (AList.update ''chunk_id''
                               (PyStr (d @ ''_chunk_'' @ py_format repr ci)) chunk_data))
           | None \<Rightarrow> None)
      | _ \<Rightarrow> None)"

fun load_files ::
  "(pyval \<Rightarrow> string) \<Rightarrow> string \<Rightarrow> string list \<Rightarrow> chunks_dir \<Rightarrow> pyval list \<Rightarrow>
   chunks_dir \<times> pyval list" where
  "load_files repr d [] store chunks = (store, chunks)"
| "load_files repr d (chunk_file # rest) store chunks =
     (case open_json store d chunk_file of
        (store1, f) \<Rightarrow>
          (case load_chunk_file repr d f of
             Some chunk_data \<Rightarrow> load_files repr d rest store1 (chunks @ [chunk_data])
           | None \<Rightarrow> load_files repr d rest store1 chunks))"

fun load_folders ::
  "(pyval \<Rightarrow> string) \<Rightarrow> (string \<times> fs_entry) list \<Rightarrow> chunks_dir \<Rightarrow> pyval list \<Rightarrow>
   chunks_dir \<times> (py_error + pyval list)" where
  "load_folders repr [] store chunks = (store, Inr chunks)"
| "load_folders repr (doc_folder # rest) store chunks =
     (case snd doc_folder of
        RegularFile \<Rightarrow> load_folders repr rest store chunks
      | Directory files \<Rightarrow>
          (case sorted_chunk_files files of
             Inl e \<Rightarrow> (store, Inl e)
           | Inr chunk_files \<Rightarrow>
               (case load_files repr (fst doc_folder) chunk_files store chunks of
                  (store1, chunks1) \<Rightarrow> load_folders repr rest store1 chunks1)))"

text \<open>
  \<open>load_chunks\<close> returns the chunk store as the call leaves it, and the list of chunks
  or the error raised.
\<close>

definition load_chunks ::
  "(pyval \<Rightarrow> string) \<Rightarrow> chunks_dir \<Rightarrow> chunks_dir \<times> (py_error + pyval list)" where
  "load_chunks repr chunks_path =
     (case chunks_path of
        Absent \<Rightarrow> (chunks_path, Inr [])
      | NotDirectory \<Rightarrow> (chunks_path, Inl NotADirectoryError)
      | ChunksDir folders \<Rightarrow> load_folders repr folders chunks_path [])"







section \<open>The embedding indexer (embed_and_index.py)\<close>

text \<open>
  A two-dimensional numpy array is its number of columns and the list of its rows. The
  type \<open>'v\<close> of a row, and what \<open>faiss.normalize_L2\<close> makes of a row (the parameter
  \<open>nrm\<close>), are left open: no property below depends on the floating-point values.

  Arrays are objects that the code mutates in place, so they live in a store and are
  passed by address. The addresses below \<open>next_free\<close> are the allocated ones.
\<close>

record 'v ndarray =
  ncols :: nat
  rows :: "'v list"

record 'v store =
  cells :: "nat \<Rightarrow> 'v ndarray"
  next_free :: nat

text \<open>The store that holds the given arrays, at the addresses 0, 1, and so on.\<close>

definition store_of :: "'v ndarray list \<Rightarrow> 'v store" where
  "store_of arrays =
     \<lparr>cells = (\<lambda>a. if a < length arrays then arrays ! a else \<lparr>ncols = 0, rows = []\<rparr>),
      next_free = length arrays\<rparr>"

text \<open>\<open>a.copy()\<close>: a new array with the same contents, at a fresh address.\<close>

definition array_copy :: "'v store \<Rightarrow> nat \<Rightarrow> nat \<times> 'v store" where
  "array_copy st a =
     (next_free st,
      st\<lparr>cells := (cells st)(next_free st := cells st a), next_free := Suc (next_free st)\<rparr>)"

text \<open>\<open>faiss.normalize_L2(a)\<close>: every row of the array at \<open>a\<close> is normalised, in place.\<close>

definition normalize_L2 :: "('v \<Rightarrow> 'v) \<Rightarrow> 'v store \<Rightarrow> nat \<Rightarrow> 'v store" where
  "normalize_L2 nrm st a =
     st\<lparr>cells := (cells st)(a := (cells st a)\<lparr>rows := map nrm (rows (cells st a))\<rparr>)\<rparr>"

text \<open>
  \<open>faiss.IndexFlatIP\<close>: the dimension and the stored vectors, in the order of their
  addition. \<open>add\<close> asserts that the array has the dimension of the index and copies
  its rows to the end of the index.
\<close>

record 'v flat_index =
  index_dim :: nat
  index_rows :: "'v list"

definition IndexFlatIP :: "nat \<Rightarrow> 'v flat_index" where
  "IndexFlatIP n = \<lparr>index_dim = n, index_rows = []\<rparr>"

definition ntotal :: "'v flat_index \<Rightarrow> nat" where
  "ntotal ix = length (index_rows ix)"

definition index_add :: "'v flat_index \<Rightarrow> 'v ndarray \<Rightarrow> py_error + 'v flat_index" where
  "index_add ix x =
     (if ncols x = index_dim ix then Inr (ix\<lparr>index_rows := index_rows ix @ rows x\<rparr>)
      else Inl AssertionError)"

text \<open>
  The state of an \<open>EmbeddingIndexer\<close>: \<open>index\<close> is \<open>None\<close> until an index is built or
  loaded. The metadata list holds the chunks, of any type \<open>'c\<close>.
\<close>

record ('v, 'c) indexer =
  index :: "'v flat_index option"
  chunk_metadata :: "'c list"
  dimension :: nat

definition new_indexer :: "('v, 'c) indexer" where
  "new_indexer = \<lparr>index = None, chunk_metadata = [], dimension = 384\<rparr>"

text \<open>
  \<open>build_index\<close>. The result is the exception raised, if any, the indexer and the store
  as the call leaves them. An exception of \<open>add\<close> leaves the fresh, empty index in place.
\<close>

definition build_index ::
  "('v \<Rightarrow> 'v) \<Rightarrow> nat \<Rightarrow> 'c list \<Rightarrow> ('v, 'c) indexer \<Rightarrow> 'v store \<Rightarrow>
   py_error option \<times> ('v, 'c) indexer \<times> 'v store" where
  "build_index nrm embeddings chunks self st =
     (if length (rows (cells st embeddings)) = 0 then (None, self, st)
      else
        (let self1 = self\<lparr>index := Some (IndexFlatIP (dimension self))\<rparr>;
             (embeddings_normalized, st1) = array_copy st embeddings;
             st2 = normalize_L2 nrm st1 embeddings_normalized
         in case index_add (IndexFlatIP (dimension self)) (cells st2 embeddings_normalized) of
              Inl e \<Rightarrow> (Some e, self1, st2)
            | Inr ix \<Rightarrow> (None, self1\<lparr>index := Some ix, chunk_metadata := chunks\<rparr>, st2)))"

text \<open>
  The index directory: each of the two files is absent, unreadable by its library, or
  holds an object.
\<close>

datatype 'a disk_file = NoFile | Corrupt | Holds 'a

record ('v, 'c) index_files =
  faiss_index_file :: "'v flat_index disk_file"
  metadata_file :: "'c list disk_file"

definition load_index ::
  "('v, 'c) index_files \<Rightarrow> ('v, 'c) indexer \<Rightarrow> (py_error + bool) \<times> ('v, 'c) indexer" where
  "load_index dir self =
     (case faiss_index_file dir of
        NoFile \<Rightarrow> (Inr False, self)
      | Corrupt \<Rightarrow> (Inl RuntimeError, self)
      | Holds ix \<Rightarrow>
          (let self1 = self\<lparr>index := Some ix\<rparr>
           in case metadata_file dir of
                NoFile \<Rightarrow> (Inl FileNotFoundError, self1)
              | Corrupt \<Rightarrow> (Inl UnpicklingError, self1)
              | Holds md \<Rightarrow> (Inr True, self1\<lparr>chunk_metadata := md\<rparr>)))"


subsection \<open>Search\<close>








text \<open>
  What \<open>search\<close> expects of the nearest-neighbour search of the index library (an exact
  top-\<open>n\<close> search over a flat index): asked for \<open>n\<close> neighbours, with \<open>n\<close> between 1 and
  the number of stored vectors, it returns \<open>n\<close> candidates, each labelled with the
  position of a stored vector.
\<close>

definition top_n_search ::
  "('v flat_index \<Rightarrow> 'v \<Rightarrow> int \<Rightarrow> py_error + (int \<times> real) list) \<Rightarrow> bool" where
  "top_n_search index_search \<longleftrightarrow>
     (\<forall>ix q n. 1 \<le> n \<and> n \<le> int (ntotal ix) \<longrightarrow>
        (\<exists>candidates. index_search ix q n = Inr candidates \<and> length candidates = nat n \<and>
           (\<forall>c \<in> set candidates. 0 \<le> fst c \<and> fst c < int (ntotal ix))))"

text \<open>
  Two stand-ins for the library, for the examples below: one returns the first \<open>n\<close>
  labels, each with score 1; the other accepts no request but one for \<open>m\<close> neighbours.
\<close>

definition first_labels :: "'v flat_index \<Rightarrow> 'v \<Rightarrow> int \<Rightarrow> py_error + (int \<times> real) list" where
  "first_labels ix q n = Inr (map (\<lambda>i. (int i, 1)) [0..<nat n])"


section \<open>Properties of the chunker\<close>

lemma chunk_loop_acc:
  "chunk_loop w d cs ov src pr s i acc = acc @ chunk_loop w d cs ov src pr s i []"
proof (induction "nat (int (length w) - s)" arbitrary: s i acc rule: less_induct)
  case less
  show ?case
  proof (cases "s < int (length w) \<and> py_slice w s (min (s + cs) (int (length w))) \<noteq> []")
    case True
    define c where "c = \<lparr>doc_id = d, chunk_index = i,
        chunk_text_str = join_space (py_slice w s (min (s + cs) (int (length w)))),
        start_offset = s, end_offset = min (s + cs) (int (length w)), source = src,
        page = find_page pr s\<rparr>"
    have m: "nat (int (length w) - (s + max (cs - ov) 1)) < nat (int (length w) - s)"
      using True by auto
    have "chunk_loop w d cs ov src pr s i acc
            = chunk_loop w d cs ov src pr (s + max (cs - ov) 1) (i + 1) (acc @ [c])"
      using True by (subst chunk_loop.simps) (simp add: Let_def c_def)
    also have "\<dots> = (acc @ [c]) @ chunk_loop w d cs ov src pr (s + max (cs - ov) 1) (i + 1) []"
      by (rule less[OF m])
    also have "\<dots> = acc @ chunk_loop w d cs ov src pr (s + max (cs - ov) 1) (i + 1) [c]"
      using less[OF m, of "i + 1" "[c]"] by simp
    also have "chunk_loop w d cs ov src pr (s + max (cs - ov) 1) (i + 1) [c]
            = chunk_loop w d cs ov src pr s i []"
      using True by (subst (2) chunk_loop.simps) (simp add: Let_def c_def)
    finally show ?thesis .
  next
    case False
    then show ?thesis
      by (subst chunk_loop.simps, subst (2) chunk_loop.simps) (auto simp: Let_def)
  qed
qed

lemma chunk_loop_unfold:
  "chunk_loop w d cs ov src pr s i [] =
     (if s < int (length w) \<and> py_slice w s (min (s + cs) (int (length w))) \<noteq> [] then
        \<lparr>doc_id = d, chunk_index = i,
         chunk_text_str = join_space (py_slice w s (min (s + cs) (int (length w)))),
         start_offset = s, end_offset = min (s + cs) (int (length w)), source = src,
         page = find_page pr s\<rparr>
        # chunk_loop w d cs ov src pr (s + max (cs - ov) 1) (i + 1) []
      else [])"
  apply (subst chunk_loop.simps)
  apply (simp add: Let_def)
  apply (subst chunk_loop_acc)
  apply simp
  done


lemma split_scan_good:
  "list_all (\<lambda>c. \<not> isspace c) cur \<Longrightarrow> list_all good_word (split_scan cur t)"
  by (induction t arbitrary: cur) (auto simp: good_word_def)

lemma split_scan_word:
  "list_all (\<lambda>c. \<not> isspace c) w \<Longrightarrow> split_scan cur (w @ rest) = split_scan (cur @ w) rest"
  by (induction w arbitrary: cur) auto

lemma isspace_32: "isspace 32"
  by (simp add: isspace_def)

lemma split_join:
  "list_all good_word ws \<Longrightarrow> split_scan [] (join_space ws) = ws"
proof (induction ws rule: join_space.induct)
  case 1
  show ?case by simp
next
  case (2 w)
  then have "split_scan [] (w @ []) = split_scan ([] @ w) []"
    by (intro split_scan_word) (simp add: good_word_def)
  with 2 show ?case by (simp add: good_word_def)
next
  case (3 w v ws)
  from 3 have g: "list_all (\<lambda>c. \<not> isspace c) w" "w \<noteq> []" by (simp_all add: good_word_def)
  have "split_scan [] (join_space (w # v # ws)) = split_scan ([] @ w) (32 # join_space (v # ws))"
    using split_scan_word[OF g(1), of "[]" "32 # join_space (v # ws)"] by simp
  also have "\<dots> = w # split_scan [] (join_space (v # ws))"
    using g(2) by (simp add: isspace_32)
  finally show ?case using 3 by simp
qed

lemma join_space_nonempty:
  "list_all good_word ws \<Longrightarrow> ws \<noteq> [] \<Longrightarrow> join_space ws \<noteq> []"
  by (induction ws rule: join_space.induct) (auto simp: good_word_def)

lemma split_words_join:
  "list_all good_word ws \<Longrightarrow> split_words (Some (join_space ws)) = ws"
  using split_join[of ws] join_space_nonempty[of ws]
  by (cases "ws = []") (auto simp: split_words_def str_split_def)

lemma split_words_good: "list_all good_word (split_words t)"
  by (auto simp: split_words_def str_split_def split_scan_good split: option.splits)

lemma length_py_slice:
  "0 \<le> i \<Longrightarrow> i \<le> j \<Longrightarrow> j \<le> int (length xs) \<Longrightarrow> length (py_slice xs i j) = nat (j - i)"
  by (auto simp: py_slice_def slice_bound_def Let_def min_def nat_diff_distrib nat_le_iff)

lemma py_slice_subset: "set (py_slice xs i j) \<subseteq> set xs"
  by (auto simp: py_slice_def Let_def dest: in_set_takeD in_set_dropD)

lemma chunk_loop_words:
  assumes "0 \<le> cs" "list_all good_word w" "0 \<le> s"
    and "c \<in> set (chunk_loop w d cs ov src pr s i [])"
  shows "end_offset c - start_offset c = int (length (split_words (Some (chunk_text_str c))))"
  using assms(3,4)
proof (induction "nat (int (length w) - s)" arbitrary: s i rule: less_induct)
  case less
  from less.prems(2) have c: "s < int (length w)" "py_slice w s (min (s + cs) (int (length w))) \<noteq> []"
    by (subst (asm) chunk_loop_unfold, auto split: if_splits)+
  let ?e = "min (s + cs) (int (length w))"
  let ?cw = "py_slice w s ?e"
  from less.prems(2) c consider
      (hd) "c = \<lparr>doc_id = d, chunk_index = i, chunk_text_str = join_space ?cw,
         start_offset = s, end_offset = ?e, source = src, page = find_page pr s\<rparr>"
    | (tl) "c \<in> set (chunk_loop w d cs ov src pr (s + max (cs - ov) 1) (i + 1) [])"
    by (subst (asm) chunk_loop_unfold) auto
  then show ?case
  proof cases
    case hd
    have len: "length ?cw = nat (?e - s)"
      using assms(1) less.prems(1) c(1) by (intro length_py_slice) auto
    have "list_all good_word ?cw"
      using assms(2) py_slice_subset[of w s ?e] by (auto simp: list_all_iff)
    then have "split_words (Some (join_space ?cw)) = ?cw" by (rule split_words_join)
    with len show ?thesis using hd assms(1) c(1) by simp
  next
    case tl
    have m: "nat (int (length w) - (s + max (cs - ov) 1)) < nat (int (length w) - s)"
      using c(1) by auto
    show ?thesis by (rule less.hyps[OF m _ tl]) (use less.prems(1) in auto)
  qed
qed





text \<open>
  C7, as stated, fails for a negative \<open>chunk_size\<close>: the end offset is then negative, and
  the slice counts it from the end of the word list. The text "a b c d" with
  \<open>chunk_size = -2\<close> and \<open>overlap = 0\<close> gives two chunks; the first one, which is not the
  final one, holds two words while \<open>end_offset - start_offset\<close> is \<open>-2\<close>.
\<close>

theorem chunk_offsets_negative_size_counterexample:
  "length (chunk_text (Some [97, 32, 98, 32, 99, 32, 100]) ''d'' (- 2) 0 None None) = 2 \<and>
   end_offset (chunk_text (Some [97, 32, 98, 32, 99, 32, 100]) ''d'' (- 2) 0 None None ! 0)
     - start_offset (chunk_text (Some [97, 32, 98, 32, 99, 32, 100]) ''d'' (- 2) 0 None None ! 0)
     = - 2 \<and>
   int (length (split_words (Some (chunk_text_str
     (chunk_text (Some [97, 32, 98, 32, 99, 32, 100]) ''d'' (- 2) 0 None None ! 0))))) = 2"
  by (simp add: chunk_text_def split_words_def str_split_def chunk_loop_unfold py_slice_def
        slice_bound_def isspace_def find_page_def)

text \<open>
  C7, amended. When \<open>chunk_size\<close> is not negative, every chunk that \<open>chunk_text\<close> produces,
  the final one included, has \<open>end_offset - start_offset\<close> equal to the number of words
  that splitting its text on whitespace gives.
\<close>

theorem chunk_offsets_count_words:
  assumes "0 \<le> chunk_size"
    and "c \<in> set (chunk_text t d chunk_size overlap src pr)"
  shows "end_offset c - start_offset c = int (length (split_words (Some (chunk_text_str c))))"
proof -
  from assms(2) have "c \<in> set (chunk_loop (split_words t) d chunk_size overlap src pr 0 0 [])"
    by (auto simp: chunk_text_def Let_def split: if_splits)
  with assms(1) split_words_good[of t] show ?thesis
    by (intro chunk_loop_words[of chunk_size "split_words t" 0 c d overlap src pr 0]) auto
qed

theorem chunk_offsets_count_words_witness:
  "(0::int) \<le> 2 \<and>
   \<lparr>doc_id = ''d'', chunk_index = 3, chunk_text_str = [100], start_offset = 3, end_offset = 4,
     source = None, page = None\<rparr>
     \<in> set (chunk_text (Some [97, 32, 98, 32, 99, 32, 100]) ''d'' 2 1 None None) \<and>
   end_offset \<lparr>doc_id = ''d'', chunk_index = 3, chunk_text_str = [100], start_offset = 3,
     end_offset = 4, source = None, page = None\<rparr>
     - start_offset \<lparr>doc_id = ''d'', chunk_index = 3, chunk_text_str = [100], start_offset = 3,
     end_offset = 4, source = None, page = None\<rparr>
     = int (length (split_words (Some (chunk_text_str \<lparr>doc_id = ''d'', chunk_index = 3,
         chunk_text_str = [100], start_offset = 3, end_offset = 4, source = None,
         page = None\<rparr>))))"
proof -
  have m: "\<lparr>doc_id = ''d'', chunk_index = 3, chunk_text_str = [100], start_offset = 3, end_offset = 4,
     source = None, page = None\<rparr>
     \<in> set (chunk_text (Some [97, 32, 98, 32, 99, 32, 100]) ''d'' 2 1 None None)"
    by (simp add: chunk_text_def split_words_def str_split_def chunk_loop_unfold py_slice_def
        slice_bound_def isspace_def find_page_def)
  have z: "(0::int) \<le> 2" by simp
  from chunk_offsets_count_words[OF z m] m show ?thesis by simp
qed

section \<open>Properties of the extractor\<close>

lemma single_spaced_Cons:
  "single_spaced (c # cs) \<longleftrightarrow>
     (isspace c \<longrightarrow> c = 32 \<and> (cs \<noteq> [] \<longrightarrow> \<not> isspace (hd cs))) \<and> single_spaced cs"
  by (cases cs) auto

lemma hd_dropWhile_isspace: "dropWhile isspace cs \<noteq> [] \<Longrightarrow> \<not> isspace (hd (dropWhile isspace cs))"
  by (rule hd_dropWhile)

lemma hd_sub_ws: "cs \<noteq> [] \<Longrightarrow> \<not> isspace (hd cs) \<Longrightarrow> sub_ws cs \<noteq> [] \<and> hd (sub_ws cs) = hd cs"
  by (cases cs) auto

lemma sub_ws_Nil_iff: "sub_ws cs = [] \<longleftrightarrow> cs = []"
  by (cases cs) auto

lemma single_spaced_sub_ws: "single_spaced (sub_ws t)"
proof (induction t rule: sub_ws.induct)
  case 1
  show ?case by simp
next
  case (2 c cs)
  show ?case
  proof (cases "isspace c")
    case True
    let ?r = "dropWhile isspace cs"
    have "sub_ws ?r \<noteq> [] \<longrightarrow> \<not> isspace (hd (sub_ws ?r))"
      using hd_dropWhile_isspace[of cs] hd_sub_ws[of ?r] by (auto simp: sub_ws_Nil_iff)
    with True 2 show ?thesis by (simp add: single_spaced_Cons)
  next
    case False
    with 2 show ?thesis by (simp add: single_spaced_Cons)
  qed
qed

lemma sub_ws_fixed: "single_spaced t \<Longrightarrow> sub_ws t = t"
proof (induction t rule: single_spaced.induct)
  case 1
  show ?case by simp
next
  case (2 c)
  then show ?case by simp
next
  case (3 c d cs)
  then show ?case by (cases "isspace c") auto
qed

lemma single_spaced_drop: "single_spaced t \<Longrightarrow> single_spaced (drop n t)"
proof (induction n arbitrary: t)
  case 0
  then show ?case by simp
next
  case (Suc n)
  then show ?case by (cases t) (auto simp: single_spaced_Cons)
qed

lemma single_spaced_take: "single_spaced t \<Longrightarrow> single_spaced (take n t)"
proof (induction t arbitrary: n)
  case Nil
  show ?case by simp
next
  case (Cons c cs)
  show ?case
  proof (cases n)
    case 0
    then show ?thesis by simp
  next
    case (Suc m)
    have "take m cs \<noteq> [] \<Longrightarrow> hd (take m cs) = hd cs"
      by (cases m; cases cs) auto
    with Cons Suc show ?thesis by (auto simp: single_spaced_Cons)
  qed
qed

lemma rstrip_take: "rev (dropWhile P (rev t)) = take (length t - length (takeWhile P (rev t))) t"
  by (simp add: dropWhile_eq_drop rev_drop)

lemma single_spaced_strip: "single_spaced t \<Longrightarrow> single_spaced (str_strip t)"
  unfolding str_strip_def rstrip_take
  by (intro single_spaced_take) (simp add: dropWhile_eq_drop single_spaced_drop)

lemma dropWhile_fixed: "(xs \<noteq> [] \<Longrightarrow> \<not> P (hd xs)) \<Longrightarrow> dropWhile P xs = xs"
  by (cases xs) auto

lemma str_strip_idem: "str_strip (str_strip t) = str_strip t"
proof -
  let ?v = "dropWhile isspace t"
  let ?r = "rev (dropWhile isspace (rev ?v))"
  have tail_ok: "dropWhile isspace (rev ?r) = rev ?r"
    by simp
  have head_ok: "dropWhile isspace ?r = ?r"
  proof (rule dropWhile_fixed)
    assume ne: "?r \<noteq> []"
    have r: "?r = take (length ?v - length (takeWhile isspace (rev ?v))) ?v"
      by (rule rstrip_take)
    with ne have "?v \<noteq> []" by auto
    moreover from ne r have "hd ?r = hd ?v"
      by (metis hd_take take_eq_Nil not_gr_zero)
    ultimately show "\<not> isspace (hd ?r)" using hd_dropWhile_isspace[of t] by simp
  qed
  show ?thesis
    unfolding str_strip_def using head_ok tail_ok by simp
qed

lemma sub_ws_chars: "c \<in> set (sub_ws t) \<Longrightarrow> isspace c \<Longrightarrow> c = 32"
  by (induction t rule: sub_ws.induct) (auto split: if_splits)

lemma set_str_strip: "set (str_strip t) \<subseteq> set t"
  unfolding str_strip_def by (auto dest!: set_dropWhileD)

lemma isspace_13: "isspace 13"
  by (simp add: isspace_def)

lemma replace_cr_fixed: "13 \<notin> set t \<Longrightarrow> replace_cr t = t"
  by (induction t) (auto simp: replace_cr_def)

lemma clean_fixed:
  "str_strip (sub_ws (replace_cr (str_strip (sub_ws u)))) = str_strip (sub_ws u)"
proof -
  let ?r = "str_strip (sub_ws u)"
  have "13 \<notin> set ?r"
    using set_str_strip[of "sub_ws u"] sub_ws_chars[of 13 u] isspace_13 by auto
  then have a: "replace_cr ?r = ?r" by (rule replace_cr_fixed)
  have "single_spaced ?r" by (intro single_spaced_strip single_spaced_sub_ws)
  then have b: "sub_ws ?r = ?r" by (rule sub_ws_fixed)
  show ?thesis unfolding a b by (rule str_strip_idem)
qed

text \<open>
  C5. Cleaning is idempotent: \<open>clean_text (clean_text s) = clean_text s\<close> for every
  input \<open>s\<close>, and an absent or empty input gives the empty string, not an error.
\<close>

theorem clean_text_idempotent:
  "clean_text (Some (clean_text s)) = clean_text s \<and>
   clean_text None = [] \<and> clean_text (Some []) = []"
  by (cases s) (auto simp: clean_text_def clean_fixed)

text \<open>
  C6. \<open>detect_file_type\<close> looks only at the lower-cased suffix of the path. When the suffix
  is none of \<open>.pdf\<close>, \<open>.docx\<close>, \<open>.txt\<close>, \<open>.png\<close>, \<open>.jpg\<close>, \<open>.jpeg\<close>, \<open>.tif\<close>, \<open>.tiff\<close>,
  \<open>.bmp\<close> and \<open>.webp\<close>, the call fails with a \<open>ValueError\<close> whose message ends with
  that suffix. When it is one of them, the call returns the matching tag, \<open>image\<close> for
  each of the last seven, and does not fail.
\<close>

theorem detect_file_type_cases:
  "(str_lower (path_suffix p) \<notin>
      {''.pdf'', ''.docx'', ''.txt'',
       ''.png'', ''.jpg'', ''.jpeg'', ''.tif'', ''.tiff'', ''.bmp'', ''.webp''} \<longrightarrow>
      detect_file_type p
        = Inl (ValueError (''Unsupported file type: '' @ str_lower (path_suffix p)))) \<and>
   (str_lower (path_suffix p) = ''.pdf'' \<longrightarrow> detect_file_type p = Inr ''pdf'') \<and>
   (str_lower (path_suffix p) = ''.docx'' \<longrightarrow> detect_file_type p = Inr ''docx'') \<and>
   (str_lower (path_suffix p) = ''.txt'' \<longrightarrow> detect_file_type p = Inr ''txt'') \<and>
   (str_lower (path_suffix p) = ''.png'' \<longrightarrow> detect_file_type p = Inr ''image'') \<and>
   (str_lower (path_suffix p) = ''.jpg'' \<longrightarrow> detect_file_type p = Inr ''image'') \<and>
   (str_lower (path_suffix p) = ''.jpeg'' \<longrightarrow> detect_file_type p = Inr ''image'') \<and>
   (str_lower (path_suffix p) = ''.tif'' \<longrightarrow> detect_file_type p = Inr ''image'') \<and>
   (str_lower (path_suffix p) = ''.tiff'' \<longrightarrow> detect_file_type p = Inr ''image'') \<and>
   (str_lower (path_suffix p) = ''.bmp'' \<longrightarrow> detect_file_type p = Inr ''image'') \<and>
   (str_lower (path_suffix p) = ''.webp'' \<longrightarrow> detect_file_type p = Inr ''image'')"
  by (simp add: detect_file_type_def Let_def)

lemma path_evals:
  "str_lower (path_suffix ''docs/notes.xyz'') = ''.xyz''"
  "str_lower (path_suffix ''a/Report.PDF'') = ''.pdf''"
  "str_lower (path_suffix ''x.DOCX'') = ''.docx''"
  "str_lower (path_suffix ''/tmp/readme.txt/'') = ''.txt''"
  "str_lower (path_suffix ''img/a.png'') = ''.png''"
  "str_lower (path_suffix ''b.JPG'') = ''.jpg''"
  "str_lower (path_suffix ''scan.Jpeg'') = ''.jpeg''"
  "str_lower (path_suffix ''c.tif'') = ''.tif''"
  "str_lower (path_suffix ''d.TIFF'') = ''.tiff''"
  "str_lower (path_suffix ''e.bmp'') = ''.bmp''"
  "str_lower (path_suffix ''f.WebP'') = ''.webp''"
  "str_lower (path_suffix ''archive.tar.gz'') = ''.gz''"
  "str_lower (path_suffix ''.pdf'') = []"
  by code_simp+

theorem detect_file_type_cases_witness:
  "detect_file_type ''docs/notes.xyz'' = Inl (ValueError ''Unsupported file type: .xyz'') \<and>
   detect_file_type ''archive.tar.gz'' = Inl (ValueError ''Unsupported file type: .gz'') \<and>
   detect_file_type ''.pdf'' = Inl (ValueError ''Unsupported file type: '') \<and>
   detect_file_type ''a/Report.PDF'' = Inr ''pdf'' \<and>
   detect_file_type ''x.DOCX'' = Inr ''docx'' \<and>
   detect_file_type ''/tmp/readme.txt/'' = Inr ''txt'' \<and>
   detect_file_type ''img/a.png'' = Inr ''image'' \<and>
   detect_file_type ''b.JPG'' = Inr ''image'' \<and>
   detect_file_type ''scan.Jpeg'' = Inr ''image'' \<and>
   detect_file_type ''c.tif'' = Inr ''image'' \<and>
   detect_file_type ''d.TIFF'' = Inr ''image'' \<and>
   detect_file_type ''e.bmp'' = Inr ''image'' \<and>
   detect_file_type ''f.WebP'' = Inr ''image''"
  using detect_file_type_cases[of "''docs/notes.xyz''"]
    detect_file_type_cases[of "''archive.tar.gz''"]
    detect_file_type_cases[of "''.pdf''"]
    detect_file_type_cases[of "''a/Report.PDF''"]
    detect_file_type_cases[of "''x.DOCX''"]
    detect_file_type_cases[of "''/tmp/readme.txt/''"]
    detect_file_type_cases[of "''img/a.png''"]
    detect_file_type_cases[of "''b.JPG''"]
    detect_file_type_cases[of "''scan.Jpeg''"]
    detect_file_type_cases[of "''c.tif''"]
    detect_file_type_cases[of "''d.TIFF''"]
    detect_file_type_cases[of "''e.bmp''"]
    detect_file_type_cases[of "''f.WebP''"]
  by (simp add: path_evals)

section \<open>Properties of chunk loading\<close>


lemma all_keys_raises:
  "n \<in> set ns \<Longrightarrow> chunk_number n = Inl e \<Longrightarrow> \<exists>e'. all_keys ns = Inl e'"
  by (induction ns) (auto split: sum.splits)






lemma open_json_store: "fst (open_json store d name) = store"
  by (simp add: open_json_def)









lemmas name_evals = chunk_number_def name_stem_def rfind_dot_def py_int_def strip_chars_def
  int_space_def isspace_def sign_and_body_def unsigned_literal_def is_digit_def digits_value_def
  glob_chunk_def

lemma py_int_examples:
  "py_int '' 12 '' = Some 12" "py_int ''+012'' = Some 12" "py_int ''-3'' = Some (- 3)"
  "py_int ''1_000'' = Some 1000" "py_int ''1__0'' = None" "py_int ''abc'' = None"
  "py_int [] = None" "py_int ''- 3'' = None"
  "py_int [CHR 0x1C, CHR ''5''] = None" "py_int [CHR ''5'', CHR 0x1F] = None"
  "py_int [CHR 0xA0, CHR ''5'', CHR 0x85] = Some 5" "py_int [CHR 0x0B, CHR ''5'', CHR 0x0C] = Some 5"
  by (simp_all add: name_evals)




lemma glob_chunk_shape:
  assumes "glob_chunk name"
  shows "\<exists>mid. name = ''chunk_'' @ mid @ ''.json''"
proof -
  let ?n = "length name"
  from assms have l: "11 \<le> ?n" and h: "take 6 name = ''chunk_''"
    and t: "drop (?n - 5) name = ''.json''"
    by (simp_all add: glob_chunk_def)
  have i: "?n - 11 + 6 = ?n - 5" using l by arith
  have a: "name = take 6 name @ drop 6 name"
    by (rule append_take_drop_id[symmetric])
  have b: "drop 6 name = take (?n - 11) (drop 6 name) @ drop (?n - 11) (drop 6 name)"
    by (rule append_take_drop_id[symmetric])
  have c: "drop (?n - 11) (drop 6 name) = ''.json''"
    unfolding drop_drop i by (rule t)
  have "name = ''chunk_'' @ take (?n - 11) (drop 6 name) @ ''.json''"
    using a b c h by metis
  then show ?thesis by blast
qed

lemma split_on_nonempty: "split_on sep s \<noteq> []"
  by (induction s) (auto split: list.splits)

lemma name_stem_chunk: "name_stem (''chunk_'' @ mid @ ''.json'') = ''chunk_'' @ mid"
  by (simp add: name_stem_def rfind_dot_def)

lemma split_on_chunk: "split_on CHR ''_'' (''chunk_'' @ mid) = ''chunk'' # split_on CHR ''_'' mid"
  using split_on_nonempty[of "CHR ''_''" mid] by (auto split: list.splits)

lemma chunk_number_glob:
  assumes "glob_chunk name"
  shows "chunk_number name
     = (case py_int (split_on CHR ''_'' (name_stem name) ! 1) of
          None \<Rightarrow> Inl (InvalidLiteral (split_on CHR ''_'' (name_stem name) ! 1))
        | Some n \<Rightarrow> Inr n)"
proof -
  from glob_chunk_shape[OF assms] obtain mid where n: "name = ''chunk_'' @ mid @ ''.json''" ..
  obtain seg rest where s: "split_on CHR ''_'' mid = seg # rest"
    using split_on_nonempty[of "CHR ''_''" mid] by (cases "split_on CHR ''_'' mid") auto
  have "split_on CHR ''_'' (name_stem name) = ''chunk'' # seg # rest"
    unfolding n name_stem_chunk split_on_chunk s ..
  then show ?thesis by (simp add: chunk_number_def split: option.splits)
qed

lemma all_keys_error:
  "list_all glob_chunk ns \<Longrightarrow> all_keys ns = Inl e \<Longrightarrow> \<exists>s. e = InvalidLiteral s"
  by (induction ns) (auto simp: chunk_number_glob split: sum.splits option.splits)

lemma sorted_chunk_files_error:
  "sorted_chunk_files files = Inl e \<Longrightarrow> \<exists>s. e = InvalidLiteral s"
  using all_keys_error[of "filter glob_chunk (map fst files)" e]
  by (auto simp: sorted_chunk_files_def Let_def list_all_iff split: sum.splits)

lemma load_folders_error:
  "snd (load_folders repr folders store chunks) = Inl e \<Longrightarrow> \<exists>s. e = InvalidLiteral s"
proof (induction folders arbitrary: store chunks)
  case Nil
  then show ?case by simp
next
  case (Cons doc_folder rest)
  show ?case
  proof (cases "snd doc_folder")
    case RegularFile
    with Cons show ?thesis by simp
  next
    case (Directory files)
    show ?thesis
    proof (cases "sorted_chunk_files files")
      case (Inl e')
      with Cons.prems Directory have "e' = e" by simp
      with Inl sorted_chunk_files_error show ?thesis by blast
    next
      case (Inr names)
      obtain s1 c1 where "load_files repr (fst doc_folder) names store chunks = (s1, c1)"
        by (cases "load_files repr (fst doc_folder) names store chunks")
      with Cons Directory Inr show ?thesis by simp
    qed
  qed
qed

lemma sorted_chunk_files_raises:
  assumes "(name, f) \<in> set files" "glob_chunk name" "chunk_number name = Inl e"
  shows "\<exists>e'. sorted_chunk_files files = Inl e'"
proof -
  from assms(1,2) have "name \<in> set (filter glob_chunk (map fst files))"
    by force
  from all_keys_raises[OF this assms(3)] show ?thesis
    by (auto simp: sorted_chunk_files_def Let_def)
qed

lemma load_folders_raises:
  "(d, Directory files) \<in> set folders \<Longrightarrow> sorted_chunk_files files = Inl e \<Longrightarrow>
     \<exists>e'. snd (load_folders repr folders store chunks) = Inl e'"
proof (induction folders arbitrary: store chunks)
  case Nil
  then show ?case by simp
next
  case (Cons doc_folder rest)
  show ?case
  proof (cases "snd doc_folder")
    case RegularFile
    with Cons show ?thesis by (cases doc_folder) auto
  next
    case (Directory files')
    show ?thesis
    proof (cases "sorted_chunk_files files'")
      case (Inl e')
      with Directory show ?thesis by simp
    next
      case (Inr names)
      obtain s1 c1 where l: "load_files repr (fst doc_folder) names store chunks = (s1, c1)"
        by (cases "load_files repr (fst doc_folder) names store chunks")
      from Cons.prems Directory Inr have "(d, Directory files) \<in> set rest"
        by (cases doc_folder) auto
      from Cons.IH[OF this Cons.prems(2)] Directory Inr l show ?thesis by simp
    qed
  qed
qed

text \<open>
  C10. When a document folder holds a file whose name matches \<open>chunk_*.json\<close> and whose
  segment after the first underscore is not an integer literal, \<open>load_chunks\<close> does not
  return a list of chunks: it raises the \<open>ValueError\<close> of \<open>int\<close>, which the sort key
  computes outside the \<open>try\<close> that guards the reading of each file.
\<close>

theorem load_chunks_bad_name_raises:
  assumes "(d, Directory files) \<in> set folders"
    and "(name, f) \<in> set files"
    and "glob_chunk name"
    and "py_int (split_on CHR ''_'' (name_stem name) ! 1) = None"
  shows "\<exists>s. snd (load_chunks repr (ChunksDir folders)) = Inl (InvalidLiteral s)"
proof -
  from assms(3,4) have "chunk_number name
      = Inl (InvalidLiteral (split_on CHR ''_'' (name_stem name) ! 1))"
    by (simp add: chunk_number_glob)
  from sorted_chunk_files_raises[OF assms(2,3) this]
  obtain e where "sorted_chunk_files files = Inl e" ..
  from load_folders_raises[OF assms(1) this, of repr "ChunksDir folders" "[]"]
  obtain e' where e: "snd (load_folders repr folders (ChunksDir folders) []) = Inl e'" ..
  from load_folders_error[OF e] obtain s where "e' = InvalidLiteral s" ..
  with e show ?thesis by (simp add: load_chunks_def)
qed

lemma example_bad_name:
  "glob_chunk ''chunk_abc.json''"
  "py_int (split_on CHR ''_'' (name_stem ''chunk_abc.json'') ! 1) = None"
  "glob_chunk ''chunk_1.json''"
  "chunk_number ''chunk_1.json'' = Inr 1"
  "chunk_number ''chunk_abc.json'' = Inl (InvalidLiteral ''abc'')"
  by (simp_all add: name_evals)

theorem load_chunks_bad_name_raises_witness:
  "(''docA'', Directory
      [(''chunk_1.json'', Parsed (PyDict [(''chunk_index'', PyInt 1)])),
       (''chunk_abc.json'', Parsed (PyDict [(''chunk_index'', PyInt 2)]))])
     \<in> set [(''docA'', Directory
               [(''chunk_1.json'', Parsed (PyDict [(''chunk_index'', PyInt 1)])),
                (''chunk_abc.json'', Parsed (PyDict [(''chunk_index'', PyInt 2)]))])] \<and>
   (''chunk_abc.json'', Parsed (PyDict [(''chunk_index'', PyInt 2)]))
     \<in> set [(''chunk_1.json'', Parsed (PyDict [(''chunk_index'', PyInt 1)])),
            (''chunk_abc.json'', Parsed (PyDict [(''chunk_index'', PyInt 2)]))] \<and>
   glob_chunk ''chunk_abc.json'' \<and>
   py_int (split_on CHR ''_'' (name_stem ''chunk_abc.json'') ! 1) = None \<and>
   snd (load_chunks (\<lambda>v. [])
     (ChunksDir [(''docA'', Directory
               [(''chunk_1.json'', Parsed (PyDict [(''chunk_index'', PyInt 1)])),
                (''chunk_abc.json'', Parsed (PyDict [(''chunk_index'', PyInt 2)]))])]))
     = Inl (InvalidLiteral ''abc'')"
proof -
  let ?F = "[(''chunk_1.json'', Parsed (PyDict [(''chunk_index'', PyInt 1)])),
             (''chunk_abc.json'', Parsed (PyDict [(''chunk_index'', PyInt 2)]))]"
  have a: "(''docA'', Directory ?F) \<in> set [(''docA'', Directory ?F)]" by simp
  have b: "(''chunk_abc.json'', Parsed (PyDict [(''chunk_index'', PyInt 2)])) \<in> set ?F" by simp
  from load_chunks_bad_name_raises[OF a b example_bad_name(1,2), of "\<lambda>v. []"]
  obtain s where s: "snd (load_chunks (\<lambda>v. []) (ChunksDir [(''docA'', Directory ?F)]))
      = Inl (InvalidLiteral s)" ..
  have "snd (load_chunks (\<lambda>v. []) (ChunksDir [(''docA'', Directory ?F)]))
      = Inl (InvalidLiteral ''abc'')"
    by (simp add: load_chunks_def sorted_chunk_files_def example_bad_name)
  with s a b example_bad_name(1,2) show ?thesis by simp
qed

section \<open>Properties of the embedding indexer\<close>





text \<open>
  C8. \<open>build_index\<close> normalises a copy: the array that the caller passed, and every
  other array allocated before the call, holds after the call what it held before,
  whether the call returns or raises. What the index receives is the normalised rows.
\<close>

theorem build_index_keeps_embeddings:
  assumes "a < next_free st"
    and "embeddings < next_free st"
    and "build_index nrm embeddings chunks self st = (res, self', st')"
  shows "cells st' a = cells st a \<and> cells st' embeddings = cells st embeddings \<and>
         (res = None \<and> rows (cells st embeddings) \<noteq> [] \<longrightarrow>
            index self' = Some \<lparr>index_dim = dimension self,
                                 index_rows = map nrm (rows (cells st embeddings))\<rparr>)"
  using assms
  by (auto simp: build_index_def array_copy_def normalize_L2_def index_add_def IndexFlatIP_def
        Let_def split: if_splits)

theorem build_index_keeps_embeddings_witness:
  "(0 :: nat) < next_free (store_of [\<lparr>ncols = 384, rows = [10, 20 :: nat]\<rparr>]) \<and>
   cells (snd (snd (build_index (\<lambda>v. v div 2) 0 [''c0'', ''c1'']
       \<lparr>index = None, chunk_metadata = [], dimension = 384\<rparr>
       (store_of [\<lparr>ncols = 384, rows = [10, 20 :: nat]\<rparr>])))) 0
     = \<lparr>ncols = 384, rows = [10, 20]\<rparr> \<and>
   index (fst (snd (build_index (\<lambda>v. v div 2) 0 [''c0'', ''c1'']
       \<lparr>index = None, chunk_metadata = [], dimension = 384\<rparr>
       (store_of [\<lparr>ncols = 384, rows = [10, 20 :: nat]\<rparr>]))))
     = Some \<lparr>index_dim = 384, index_rows = [5, 10]\<rparr>"
proof -
  let ?st = "store_of [\<lparr>ncols = 384, rows = [10, 20 :: nat]\<rparr>]"
  let ?self = "\<lparr>index = None, chunk_metadata = [] :: string list, dimension = 384\<rparr>"
  let ?b = "build_index (\<lambda>v. v div 2) 0 [''c0'', ''c1''] ?self ?st"
  have l: "(0 :: nat) < next_free ?st" by (simp add: store_of_def)
  have c: "cells ?st 0 = \<lparr>ncols = 384, rows = [10, 20]\<rparr>" by (simp add: store_of_def)
  have p: "?b = (fst ?b, fst (snd ?b), snd (snd ?b))" by simp
  have r: "fst ?b = None"
    by (simp add: build_index_def array_copy_def normalize_L2_def index_add_def IndexFlatIP_def
          Let_def store_of_def)
  from build_index_keeps_embeddings[OF l l p] r l c show ?thesis by simp
qed

text \<open>
  C9. When the index file is there and the metadata file is not, \<open>load_index\<close> does not
  return \<open>False\<close>: it raises. With a readable index file the error is the
  \<open>FileNotFoundError\<close> of opening the metadata file, and the index of the indexer has
  already been replaced. Only the absence of the index file gives \<open>False\<close>.
\<close>

theorem load_index_missing_metadata_raises:
  assumes "faiss_index_file dir \<noteq> NoFile"
    and "metadata_file dir = NoFile"
  shows "(\<exists>e. fst (load_index dir self) = Inl e) \<and>
         fst (load_index dir self) \<noteq> Inr False \<and>
         (\<forall>ix. faiss_index_file dir = Holds ix \<longrightarrow>
            load_index dir self = (Inl FileNotFoundError, self\<lparr>index := Some ix\<rparr>)) \<and>
         (faiss_index_file other = NoFile \<longrightarrow> load_index other self = (Inr False, self))"
  using assms by (auto simp: load_index_def Let_def split: disk_file.splits)

theorem load_index_missing_metadata_raises_witness:
  "faiss_index_file \<lparr>faiss_index_file = Holds \<lparr>index_dim = 384, index_rows = [5, 10 :: nat]\<rparr>,
                     metadata_file = (NoFile :: string list disk_file)\<rparr> \<noteq> NoFile \<and>
   load_index \<lparr>faiss_index_file = Holds \<lparr>index_dim = 384, index_rows = [5, 10 :: nat]\<rparr>,
               metadata_file = (NoFile :: string list disk_file)\<rparr>
              \<lparr>index = None, chunk_metadata = [], dimension = 384\<rparr>
     = (Inl FileNotFoundError,
        \<lparr>index = Some \<lparr>index_dim = 384, index_rows = [5, 10]\<rparr>, chunk_metadata = [],
         dimension = 384\<rparr>)"
proof -
  let ?dir = "\<lparr>faiss_index_file = Holds \<lparr>index_dim = 384, index_rows = [5, 10 :: nat]\<rparr>,
               metadata_file = (NoFile :: string list disk_file)\<rparr>"
  have a: "faiss_index_file ?dir \<noteq> NoFile" by simp
  have b: "metadata_file ?dir = NoFile" by simp
  from load_index_missing_metadata_raises[OF a b,
      of "\<lparr>index = None, chunk_metadata = [], dimension = 384\<rparr>"] a
  show ?thesis by simp
qed

subsection \<open>Search\<close>














lemma top_n_search_first_labels: "top_n_search first_labels"
  unfolding top_n_search_def first_labels_def ntotal_def by auto



end
